theory Spec2Isabelle
  imports Complex_Main "HOL-Library.Word"
begin

section \<open>Go strings and the standard-library functions the program calls\<close>

text \<open>
  A Go string is a sequence of bytes, so it is a \<^typ>\<open>string\<close> here (a list of 8-bit
  characters) and \<open>len\<close> is \<^const>\<open>length\<close>. An \<open>error\<close> made by \<open>fmt.Errorf\<close> is
  the message it carries.
\<close>

type_synonym error = string

definition newline :: char where
  "newline = CHR 0x0A"

subsection \<open>\<open>utf8.DecodeRuneInString\<close> and \<open>unicode.IsSpace\<close>\<close>

text \<open>
  \<open>strings.Fields\<close> splits around runs of white space \<open>as defined by unicode.IsSpace\<close>,
  reading the bytes as UTF-8. The decoder returns the rune and its width in bytes; an
  invalid or truncated encoding is \<open>RuneError\<close> of width 1. \<open>first_size\<close>, \<open>accept_lo\<close>
  and \<open>accept_hi\<close> are the entries of the decoder's tables \<open>first\<close> and \<open>acceptRanges\<close>
  for a lead byte between \<open>0xC2\<close> and \<open>0xF4\<close>.
\<close>

definition RuneError :: nat where
  "RuneError = 65533"

definition first_size :: "nat \<Rightarrow> nat" where
  "first_size s0 = (if s0 < 224 then 2 else if s0 < 240 then 3 else 4)"

definition accept_lo :: "nat \<Rightarrow> nat" where
  "accept_lo s0 = (if s0 = 224 then 160 else if s0 = 240 then 144 else 128)"

definition accept_hi :: "nat \<Rightarrow> nat" where
  "accept_hi s0 = (if s0 = 237 then 159 else if s0 = 244 then 143 else 191)"

fun DecodeRuneInString :: "string \<Rightarrow> nat \<times> nat" where
  "DecodeRuneInString [] = (RuneError, 0)"
| "DecodeRuneInString (c0 # rest) =
    (let s0 = (of_char c0 :: nat) in
     if s0 < 128 then (s0, 1)
     else if s0 < 194 \<or> 244 < s0 then (RuneError, 1)
     else
       let sz = first_size s0 in
       if Suc (length rest) < sz then (RuneError, 1)
       else
         let s1 = (of_char (rest ! 0) :: nat) in
         if s1 < accept_lo s0 \<or> accept_hi s0 < s1 then (RuneError, 1)
         else if sz \<le> 2 then ((s0 mod 32) * 64 + s1 mod 64, 2)
         else
           let s2 = (of_char (rest ! 1) :: nat) in
           if s2 < 128 \<or> 191 < s2 then (RuneError, 1)
           else if sz \<le> 3 then ((s0 mod 16) * 4096 + (s1 mod 64) * 64 + s2 mod 64, 3)
           else
             let s3 = (of_char (rest ! 2) :: nat) in
             if s3 < 128 \<or> 191 < s3 then (RuneError, 1)
             else ((s0 mod 8) * 262144 + (s1 mod 64) * 4096 + (s2 mod 64) * 64 + s3 mod 64, 4))"

text \<open>
  \<open>unicode.IsSpace\<close>: in Latin-1 the characters tab, line feed, vertical tab, form feed,
  carriage return, space, U+0085 and U+00A0; above Latin-1 the \<open>White_Space\<close> range table
  (U+1680, U+2000 to U+200A, U+2028, U+2029, U+202F, U+205F, U+3000).
\<close>

definition IsSpace :: "nat \<Rightarrow> bool" where
  "IsSpace r =
    (if r \<le> 255 then r \<in> {9, 10, 11, 12, 13, 32, 133, 160}
     else r = 5760 \<or> (8192 \<le> r \<and> r \<le> 8202) \<or> r = 8232 \<or> r = 8233
          \<or> r = 8239 \<or> r = 8287 \<or> r = 12288)"

subsection \<open>\<open>strings.Fields\<close>, \<open>strings.Split\<close>, \<open>strings.ToLower\<close>, \<open>strings.HasSuffix\<close>\<close>

text \<open>
  \<open>fields_loop cur s\<close> is the loop of \<open>strings.FieldsFunc\<close> over the runes of \<open>s\<close>: \<open>cur\<close>
  holds the bytes of the field being read (empty when no field is open, since a rune that
  is not a space has at least one byte). A space closes the open field; any other rune
  extends it; the end of the string closes it.
\<close>

fun fields_loop :: "string \<Rightarrow> string \<Rightarrow> string list" where
  "fields_loop cur [] = (if cur = [] then [] else [cur])"
| "fields_loop cur (c # rest) =
    (case DecodeRuneInString (c # rest) of
       (r, w) \<Rightarrow>
         if IsSpace r then
           (if cur = [] then fields_loop [] (drop (w - 1) rest)
            else cur # fields_loop [] (drop (w - 1) rest))
         else fields_loop (cur @ take w (c # rest)) (drop (w - 1) rest))"

definition Fields :: "string \<Rightarrow> string list" where
  "Fields s = fields_loop [] s"

text \<open>
  \<open>strings.Split(s, sep)\<close> for a separator of one byte, which is how the program calls it
  (\<open>"\n"\<close>): the pieces between the separators, one more than there are separators.
\<close>

fun split_loop :: "char \<Rightarrow> string \<Rightarrow> string \<Rightarrow> string list" where
  "split_loop sep cur [] = [cur]"
| "split_loop sep cur (c # cs) =
    (if c = sep then cur # split_loop sep [] cs else split_loop sep (cur @ [c]) cs)"

definition Split :: "string \<Rightarrow> char \<Rightarrow> string list" where
  "Split s sep = split_loop sep [] s"

text \<open>
  \<open>strings.ToLower\<close> maps \<open>A\<close> to \<open>Z\<close> to lower case when every byte is ASCII. A string with
  a byte from 128 on goes through the Unicode case tables, which are taken as the
  parameter \<open>unicode_lower\<close>.
\<close>

definition lower_byte :: "char \<Rightarrow> char" where
  "lower_byte c =
    (let n = (of_char c :: nat) in if 65 \<le> n \<and> n \<le> 90 then char_of (n + 32) else c)"

definition ToLower :: "(string \<Rightarrow> string) \<Rightarrow> string \<Rightarrow> string" where
  "ToLower unicode_lower s =
    (if list_all (\<lambda>c. (of_char c :: nat) < 128) s then map lower_byte s
     else unicode_lower s)"

definition HasSuffix :: "string \<Rightarrow> string \<Rightarrow> bool" where
  "HasSuffix s suffix =
    (length suffix \<le> length s \<and> drop (length s - length suffix) s = suffix)"

section \<open>Images and the world outside the program\<close>

text \<open>
  A \<open>gocv.Mat\<close> as the program reads it: its size and the byte \<open>GetUCharAt\<close> returns at a
  row and a column. A \<open>Mat\<close> with no element is \<open>Empty\<close>; \<open>gocv.IMRead\<close> returns such a
  \<open>Mat\<close> for a file it cannot read or decode.
\<close>

record mat =
  Rows :: nat
  Cols :: nat
  GetUCharAt :: "nat \<Rightarrow> nat \<Rightarrow> 8 word"

definition Empty :: "mat \<Rightarrow> bool" where
  "Empty m = (Rows m = 0 \<or> Cols m = 0)"

datatype imread_flag = IMReadColor | IMReadGrayScale

text \<open>
  What \<open>os.Stat\<close> answers for a path: success, or an error with one of the error numbers
  \<open>ENOENT\<close> (a component of the path does not exist), \<open>ENOTDIR\<close> (a component used as a
  directory is not one) and \<open>EACCES\<close> (a directory on the way may not be searched).
  \<open>os.IsNotExist\<close> holds of the error with \<open>ENOENT\<close> and of no other answer. There is no file
  at the path after \<open>ENOENT\<close> and after \<open>ENOTDIR\<close>.
\<close>

datatype stat_result = StatOK | ENOENT | ENOTDIR | EACCES

definition IsNotExist :: "stat_result \<Rightarrow> bool" where
  "IsNotExist r = (r = ENOENT)"

definition no_such_path :: "stat_result \<Rightarrow> bool" where
  "no_such_path r = (r = ENOENT \<or> r = ENOTDIR)"

text \<open>
  The file system, OpenCV and the OCR engine are outside the program; \<open>env\<close> collects
  what they answer: what \<open>os.Stat\<close>, \<open>gocv.IMRead\<close>, \<open>gocv.Resize\<close> (linear interpolation)
  and \<open>gocv.CvtColor\<close> (\<open>ColorBGRToGray\<close>) return, what the OCR client's \<open>Text\<close> returns
  after \<open>SetImage\<close> on a path, the Unicode case mapping of \<open>strings.ToLower\<close>, and
  \<open>filepath.Join\<close>. \<open>stat_not_exist\<close> is the test of \<open>ValidateImage\<close>: \<open>os.Stat\<close> fails on the
  path with an error of which \<open>os.IsNotExist\<close> holds.
\<close>

record env =
  Stat :: "string \<Rightarrow> stat_result"
  IMRead :: "string \<Rightarrow> imread_flag \<Rightarrow> mat"
  Resize :: "mat \<Rightarrow> nat \<Rightarrow> nat \<Rightarrow> mat"
  CvtColor :: "mat \<Rightarrow> mat"
  ocr_Text :: "string \<Rightarrow> error + string"
  unicode_ToLower :: "string \<Rightarrow> string"
  filepath_Join :: "string \<Rightarrow> string \<Rightarrow> string"

definition stat_not_exist :: "env \<Rightarrow> string \<Rightarrow> bool" where
  "stat_not_exist env imagePath = IsNotExist (Stat env imagePath)"

section \<open>The similarity score\<close>

text \<open>
  \<open>SSIM\<close> of \<open>main.go\<close>. The program computes in \<open>float64\<close>; the model computes the same
  expressions in \<^typ>\<open>real\<close>, the value the floating-point result approximates. The
  two nested loops over \<open>y\<close> and \<open>x\<close> are folds over \<open>[0..<height]\<close> and \<open>[0..<width]\<close>,
  carrying the three running sums; \<open>gray img y x\<close> is \<open>float64(img.GetUCharAt(y, x))\<close>.
\<close>

definition C1 :: real where
  "C1 = 6.5025"

definition C2 :: real where
  "C2 = 58.5225"

definition gray :: "mat \<Rightarrow> nat \<Rightarrow> nat \<Rightarrow> real" where
  "gray img y x = real (unat (GetUCharAt img y x))"

definition ssim_pixel :: "mat \<Rightarrow> mat \<Rightarrow> nat \<Rightarrow> nat \<Rightarrow> real \<times> real \<times> real \<Rightarrow> real \<times> real \<times> real" where
  "ssim_pixel img1Gray img2Gray y x = (\<lambda>(sumL, sumC, sumS).
     let I1 = gray img1Gray y x;
         I2 = gray img2Gray y x;
         luminance = I1 * I2;
         contrast = I1 ^ 2 + I2 ^ 2;
         structure = I1 * I2
     in (sumL + luminance, sumC + contrast, sumS + structure))"

definition ssim_sums :: "nat \<Rightarrow> nat \<Rightarrow> mat \<Rightarrow> mat \<Rightarrow> real \<times> real \<times> real" where
  "ssim_sums width height img1Gray img2Gray =
     fold (\<lambda>y. fold (ssim_pixel img1Gray img2Gray y) [0..<width]) [0..<height] (0, 0, 0)"

definition SSIM :: "env \<Rightarrow> mat \<Rightarrow> mat \<Rightarrow> real" where
  "SSIM env img1 img2 =
    (let width = Cols img1;
         height = Rows img1;
         img1Gray = CvtColor env img1;
         img2Gray = CvtColor env img2
     in case ssim_sums width height img1Gray img2Gray of
          (sumL, sumC, sumS) \<Rightarrow>
            let L = (2 * sumL + C1) / (sumC + C1);
                C = (2 * sumC + C2) / (sumS + C2);
                ssimIndex = L * C
            in ssimIndex)"

text \<open>The sum of the squared grey values of the pixels the loops visit.\<close>

definition energy :: "nat \<Rightarrow> nat \<Rightarrow> mat \<Rightarrow> real" where
  "energy w h g = (\<Sum>y = 0..<h. \<Sum>x = 0..<w. (gray g y x)\<^sup>2)"

section \<open>Loading, comparing and reading an image\<close>

text \<open>
  \<open>ValidateImage\<close>, \<open>CompareImages\<close> and \<open>ExtractTextWithEnglishAndNumbers\<close> of \<open>main.go\<close>.
  The second source file of the repository is a variant of the same program; it differs
  in \<open>CompareImages\<close> alone, which there asks a library for the score instead of calling
  the \<open>SSIM\<close> above.
\<close>

definition ValidateImage :: "env \<Rightarrow> string \<Rightarrow> error + mat" where
  "ValidateImage env imagePath =
    (if stat_not_exist env imagePath then Inl (''image not found: '' @ imagePath)
     else
       let img = IMRead env imagePath IMReadGrayScale in
       if Empty img then Inl (''unable to read image: '' @ imagePath) else Inr img)"

definition CompareImages :: "env \<Rightarrow> string \<Rightarrow> string \<Rightarrow> error + real" where
  "CompareImages env image1Path image2Path =
    (case ValidateImage env image1Path of
       Inl err \<Rightarrow> Inl err
     | Inr img1 \<Rightarrow>
         (case ValidateImage env image2Path of
            Inl err \<Rightarrow> Inl err
          | Inr img2 \<Rightarrow>
              let img1Resized = Resize env img1 300 300;
                  img2Resized = Resize env img2 300 300;
                  ssimValue = SSIM env img1Resized img2Resized
              in Inr ssimValue))"

text \<open>
  \<open>ExtractTextWithEnglishAndNumbers\<close>: the grey copy it makes is not used afterwards, so
  the model leaves it out. \<open>words[len(words)-1]\<close> is in range where it is read.
\<close>

definition ExtractTextWithEnglishAndNumbers :: "env \<Rightarrow> string \<Rightarrow> error + string" where
  "ExtractTextWithEnglishAndNumbers env imagePath =
    (let img = IMRead env imagePath IMReadColor in
     if Empty img then Inl (''unable to read image: '' @ imagePath)
     else
       case ocr_Text env imagePath of
         Inl err \<Rightarrow> Inl err
       | Inr ocr_text \<Rightarrow>
           let words = Fields ocr_text in
           if length words > 3 then Inr (words ! (length words - 1)) else Inr [])"

section \<open>The task started for a file\<close>

text \<open>
  What a task does that can be seen from outside: a line on the log, a call of the text
  extractor, a line printed on standard output.
\<close>

datatype task_event = TaskLog string | CallExtract string | Println string

text \<open>Lines 170 to 173 of \<open>main.go\<close>: what is printed for an extracted text.\<close>

definition print_code :: "string \<Rightarrow> task_event list" where
  "print_code extractedText =
    (let lines = Split extractedText newline in
     if length lines > 1 \<and> length (lines ! 1) = 12 then [Println (lines ! 1)] else [])"

text \<open>Lines 163 to 174: what the task does once it has a similarity.\<close>

definition on_similarity :: "env \<Rightarrow> string \<Rightarrow> real \<Rightarrow> task_event list" where
  "on_similarity env path similarity =
    (if similarity > 0.8 then
       CallExtract path #
       (case ExtractTextWithEnglishAndNumbers env path of
          Inl err \<Rightarrow> [TaskLog (''Error extracting text: '' @ err)]
        | Inr extractedText \<Rightarrow> print_code extractedText)
     else [])"

text \<open>The function literal started with \<open>go\<close> (lines 155 to 175), called with \<open>path\<close>.\<close>

definition go_func :: "env \<Rightarrow> string \<Rightarrow> string \<Rightarrow> task_event list" where
  "go_func env referenceImagePath path =
    (case CompareImages env path referenceImagePath of
       Inl err \<Rightarrow> [TaskLog (''Error comparing images: '' @ err)]
     | Inr similarity \<Rightarrow> on_similarity env path similarity)"


fun is_println :: "task_event \<Rightarrow> bool" where
  "is_println (Println s) = True"
| "is_println _ = False"

section \<open>The watcher\<close>

text \<open>
  \<open>processedFiles\<close> is a \<open>map[string]bool\<close>: reading a key that is absent gives \<open>false\<close>.
  The deferred function of a task stores \<open>true\<close> under the task's own file name.
\<close>

definition processed :: "(string \<rightharpoonup> bool) \<Rightarrow> string \<Rightarrow> bool" where
  "processed processedFiles filename =
    (case processedFiles filename of None \<Rightarrow> False | Some b \<Rightarrow> b)"

definition deferred_mark :: "(string \<rightharpoonup> bool) \<Rightarrow> string \<Rightarrow> (string \<rightharpoonup> bool)" where
  "deferred_mark processedFiles filename = processedFiles(filename \<mapsto> True)"

record dir_entry =
  Name :: string
  IsDir :: bool

text \<open>
  The entries for which the loop body reaches the \<open>go\<close> statement: not a directory, the
  lower-cased name ends in \<open>.jpg\<close>, and the name is not yet marked in \<open>processedFiles\<close>.
\<close>

definition candidate :: "env \<Rightarrow> (string \<rightharpoonup> bool) \<Rightarrow> dir_entry \<Rightarrow> bool" where
  "candidate env processedFiles file =
    (\<not> IsDir file \<and> HasSuffix (ToLower (unicode_ToLower env) (Name file)) ''.jpg''
     \<and> \<not> processed processedFiles (Name file))"

text \<open>
  What the scanning loop does, in order: a call of \<open>os.ReadDir\<close>, a line on the log, a
  task started for a file name with the path it is given, a sleep of one second.
\<close>

datatype event = ReadDir string | Log string | Go string string | Sleep

text \<open>
  The loop over the entries of one listing (lines 140 to 176), taken on its own: the map
  is threaded through the iterations and a \<open>go\<close> statement is an event. What the tasks
  do to the map in the meantime is in the interleaved model further down.
\<close>

fun scan_files :: "env \<Rightarrow> string \<Rightarrow> (string \<rightharpoonup> bool) \<Rightarrow> dir_entry list
    \<Rightarrow> (string \<rightharpoonup> bool) \<times> event list" where
  "scan_files env directory processedFiles [] = (processedFiles, [])"
| "scan_files env directory processedFiles (file # files) =
    (if IsDir file then scan_files env directory processedFiles files
     else
       let filename = Name file;
           filePath = filepath_Join env directory filename
       in
       if processed processedFiles filename
          \<or> \<not> HasSuffix (ToLower (unicode_ToLower env) filename) ''.jpg''
       then scan_files env directory processedFiles files
       else
         (case scan_files env directory (processedFiles(filename \<mapsto> True)) files of
            (processedFiles', started) \<Rightarrow> (processedFiles', Go filename filePath # started)))"

text \<open>
  The loop \<open>for { ... }\<close> never ends by itself. Its model runs one iteration for each
  answer of \<open>os.ReadDir\<close> it is given, in order, and returns the map and the events of
  these iterations: a prefix of the endless run, as long as the list of answers. A failed
  listing goes on with the next iteration at once (\<open>continue\<close>, before the sleep).
\<close>

fun scan_loop :: "env \<Rightarrow> string \<Rightarrow> (string \<rightharpoonup> bool) \<Rightarrow> (error + dir_entry list) list
    \<Rightarrow> (string \<rightharpoonup> bool) \<times> event list" where
  "scan_loop env directory processedFiles [] = (processedFiles, [])"
| "scan_loop env directory processedFiles (Inl err # listings) =
    (case scan_loop env directory processedFiles listings of
       (processedFiles', events) \<Rightarrow>
         (processedFiles',
          ReadDir directory # Log (''Error reading directory: '' @ err) # events))"
| "scan_loop env directory processedFiles (Inr files # listings) =
    (case scan_files env directory processedFiles files of
       (processedFiles1, started) \<Rightarrow>
         (case scan_loop env directory processedFiles1 listings of
            (processedFiles2, events) \<Rightarrow>
              (processedFiles2, ReadDir directory # started @ Sleep # events)))"

definition AnalyzeDirectory :: "env \<Rightarrow> string \<Rightarrow> string \<Rightarrow> (error + dir_entry list) list
    \<Rightarrow> event list" where
  "AnalyzeDirectory env directory referenceImagePath listings =
    (let processedFiles = Map.empty in
     case ValidateImage env referenceImagePath of
       Inl err \<Rightarrow> [Log (''Reference image not found: '' @ err)]
     | Inr reference \<Rightarrow> snd (scan_loop env directory processedFiles listings))"

definition main :: "env \<Rightarrow> (error + dir_entry list) list \<Rightarrow> event list" where
  "main env listings =
    (let directoryToMonitor = ''./img''; referenceImage = ''img.jpg''
     in AnalyzeDirectory env directoryToMonitor referenceImage listings)"

text \<open>The file names for which a task is started, in the order of the events.\<close>

fun started_names :: "event list \<Rightarrow> string list" where
  "started_names [] = []"
| "started_names (Go filename filePath # events) = filename # started_names events"
| "started_names (e # events) = started_names events"

fun is_readdir :: "event \<Rightarrow> bool" where
  "is_readdir (ReadDir d) = True"
| "is_readdir _ = False"

subsection \<open>The loop and its tasks, interleaved\<close>

text \<open>
  The scanning loop and the tasks it starts run at the same time and share
  \<open>processedFiles\<close> without a lock: the loop reads the map at line 148 and stores into it
  at line 153, and every task stores into it in its deferred function (line 156). The
  state below holds the map (\<open>marks\<close>), where the loop stands (\<open>scanner\<close>: between two
  entries, between the test of line 148 and the store of line 153, or between that store
  and the \<open>go\<close> statement), the file names of the tasks that have been started and have
  not yet run their deferred store (\<open>tasks\<close>), the file names for which a \<open>go\<close> statement
  has been executed, in order (\<open>launched\<close>), and whether the run-time system has stopped
  the program (\<open>dead\<close>).
\<close>

datatype pc = AtLoop | AtStore string string | AtGo string string

record watcher =
  marks :: "string \<rightharpoonup> bool"
  scanner :: pc
  tasks :: "string list"
  launched :: "string list"
  dead :: bool

text \<open>
  A run is driven by a schedule, a list of actions. \<open>Examine\<close> lets the loop take an entry
  (lines 141 to 148), \<open>Store\<close> is line 153, \<open>Spawn\<close> is the \<open>go\<close> statement, \<open>Finish\<close> is the
  deferred store of the task of a file name. \<open>Fatal\<close> is the other outcome of that store:
  it collides with another access to the map and the run-time system stops the program
  (\<open>fatal error: concurrent map writes\<close>). An access thus takes effect as a whole or ends
  the run. An action that cannot happen in a state leaves it as it is, and nothing
  happens once the program is dead. The entries examined may be any, in any order: the
  schedules cover every sequence of listings and every way the tasks fall between the
  steps of the loop.
\<close>

datatype action = Examine dir_entry | Store | Spawn | Finish string | Fatal string

definition step :: "env \<Rightarrow> string \<Rightarrow> watcher \<Rightarrow> action \<Rightarrow> watcher" where
  "step env directory s a =
    (if dead s then s
     else case a of
       Examine file \<Rightarrow>
         (case scanner s of
            AtLoop \<Rightarrow>
              if IsDir file then s
              else
                let filename = Name file;
                    filePath = filepath_Join env directory filename
                in
                if processed (marks s) filename
                   \<or> \<not> HasSuffix (ToLower (unicode_ToLower env) filename) ''.jpg''
                then s
                else s\<lparr>scanner := AtStore filename filePath\<rparr>
          | _ \<Rightarrow> s)
     | Store \<Rightarrow>
         (case scanner s of
            AtStore filename filePath \<Rightarrow>
              s\<lparr>marks := (marks s)(filename \<mapsto> True),
                scanner := AtGo filename filePath\<rparr>
          | _ \<Rightarrow> s)
     | Spawn \<Rightarrow>
         (case scanner s of
            AtGo filename filePath \<Rightarrow>
              s\<lparr>scanner := AtLoop,
                tasks := filename # tasks s,
                launched := launched s @ [filename]\<rparr>
          | _ \<Rightarrow> s)
     | Finish filename \<Rightarrow>
         (if filename \<in> set (tasks s)
          then s\<lparr>marks := deferred_mark (marks s) filename,
                 tasks := remove1 filename (tasks s)\<rparr>
          else s)
     | Fatal filename \<Rightarrow>
         (if filename \<in> set (tasks s) then s\<lparr>dead := True\<rparr> else s))"

definition run :: "env \<Rightarrow> string \<Rightarrow> watcher \<Rightarrow> action list \<Rightarrow> watcher" where
  "run env directory s schedule = foldl (step env directory) s schedule"




section \<open>Example environments\<close>

text \<open>
  An image of 300 by 300 pixels of one grey value, and an environment in which every
  file that exists holds such an image: \<open>missing\<close> says which paths do not exist, \<open>shade\<close>
  gives the grey value of each file, \<open>ocr\<close> what the OCR engine reads in it. Resizing a
  flat image and converting it to grey leave its pixels as they are.
\<close>

definition flat_image :: "8 word \<Rightarrow> mat" where
  "flat_image v = \<lparr>Rows = 300, Cols = 300, GetUCharAt = (\<lambda>y x. v)\<rparr>"

definition NewMat :: mat where
  "NewMat = \<lparr>Rows = 0, Cols = 0, GetUCharAt = (\<lambda>y x. 0)\<rparr>"

definition example_env :: "(string \<Rightarrow> bool) \<Rightarrow> (string \<Rightarrow> 8 word) \<Rightarrow> (string \<Rightarrow> error + string) \<Rightarrow> env" where
  "example_env missing shade ocr =
    \<lparr>Stat = (\<lambda>p. if missing p then ENOENT else StatOK),
     IMRead = (\<lambda>p flag. if missing p then NewMat else flat_image (shade p)),
     Resize = (\<lambda>m w h. m\<lparr>Rows := h, Cols := w\<rparr>),
     CvtColor = (\<lambda>m. m),
     ocr_Text = ocr,
     unicode_ToLower = (\<lambda>s. s),
     filepath_Join = (\<lambda>d f. d @ ''/'' @ f)\<rparr>"

text \<open>
  Every file exists and is black, and the OCR engine reads five words in it, the last of
  them twelve characters long.
\<close>

definition card_env :: env where
  "card_env = example_env (\<lambda>p. False) (\<lambda>p. 0) (\<lambda>p. Inr ''ID CARD No 7 ABCDEFG12345'')"

text \<open>
  Three more of them: one in which the OCR engine reads three lines, the second of twelve
  characters; one in which every file is white; one in which the reference \<open>img.jpg\<close>
  is black and every other file is white.
\<close>

definition header_env :: env where
  "header_env = example_env (\<lambda>p. False) (\<lambda>p. 0)
     (\<lambda>p. Inr ''HEADER\<newline>ABCDEFG12345\<newline>FOOTER'')"

definition white_env :: env where
  "white_env = example_env (\<lambda>p. False) (\<lambda>p. 255) (\<lambda>p. Inr [])"


text \<open>
  An environment in which \<open>img/gone.jpg\<close> does not exist and \<open>img/bad.jpg\<close> exists but
  cannot be decoded, one in which the reference \<open>img.jpg\<close> does not exist, and two
  listings of the watched directory, the second taken after \<open>d.jpg\<close> and a directory
  \<open>old.jpg\<close> have appeared.
\<close>

definition broken_env :: env where
  "broken_env = card_env
     \<lparr>Stat := (\<lambda>p. if p = ''img/gone.jpg'' then ENOENT else StatOK),
      IMRead := (\<lambda>p flag. if p = ''img/gone.jpg'' \<or> p = ''img/bad.jpg'' then NewMat
                           else flat_image 0)\<rparr>"

definition lost_env :: env where
  "lost_env = example_env (\<lambda>p. p = ''img.jpg'') (\<lambda>p. 0) (\<lambda>p. Inr [])"

definition img_listing :: "dir_entry list" where
  "img_listing =
    [\<lparr>Name = ''a.jpg'', IsDir = False\<rparr>,
     \<lparr>Name = ''b.JPG'', IsDir = False\<rparr>,
     \<lparr>Name = ''c.png'', IsDir = False\<rparr>]"

definition later_listing :: "dir_entry list" where
  "later_listing =
    [\<lparr>Name = ''a.jpg'', IsDir = False\<rparr>,
     \<lparr>Name = ''b.JPG'', IsDir = False\<rparr>,
     \<lparr>Name = ''c.png'', IsDir = False\<rparr>,
     \<lparr>Name = ''d.jpg'', IsDir = False\<rparr>,
     \<lparr>Name = ''old.jpg'', IsDir = True\<rparr>]"

text \<open>
  An environment in which \<open>img/a.jpg\<close> is a file, so that \<open>os.Stat\<close> of \<open>img/a.jpg/x\<close> fails
  with \<open>ENOTDIR\<close>, and in which \<open>img/locked\<close> may not be searched; and a schedule in which
  tasks finish between the steps of the loop, names come up again, and the program is
  stopped in the end.
\<close>

definition nested_env :: env where
  "nested_env = card_env
     \<lparr>Stat := (\<lambda>p. if p = ''img/a.jpg/x'' then ENOTDIR
                   else if p = ''img/locked/b.jpg'' then EACCES else StatOK),
      IMRead := (\<lambda>p flag. if p = ''img/a.jpg/x'' \<or> p = ''img/locked/b.jpg'' then NewMat
                           else flat_image 0)\<rparr>"


section \<open>Facts about the string functions\<close>

lemma newline_code: "(of_char newline :: nat) = 10"
  by (simp add: newline_def)

lemma accept_lo_ge: "128 \<le> accept_lo s0"
  by (simp add: accept_lo_def)

lemma first_size_bounds: "2 \<le> first_size s0 \<and> first_size s0 \<le> 4"
  by (simp add: first_size_def)

lemma decode_ascii:
  "(of_char c :: nat) < 128 \<Longrightarrow> DecodeRuneInString (c # rest) = (of_char c, 1)"
  by simp

lemma decode_cases:
  assumes "DecodeRuneInString (c # rest) = (r, w)"
  shows "w = 1 \<or>
     (w = 2 \<and> 1 \<le> length rest \<and> 128 \<le> (of_char (rest ! 0) :: nat)) \<or>
     (w = 3 \<and> 2 \<le> length rest \<and> 128 \<le> (of_char (rest ! 0) :: nat)
         \<and> 128 \<le> (of_char (rest ! 1) :: nat)) \<or>
     (w = 4 \<and> 3 \<le> length rest \<and> 128 \<le> (of_char (rest ! 0) :: nat)
         \<and> 128 \<le> (of_char (rest ! 1) :: nat) \<and> 128 \<le> (of_char (rest ! 2) :: nat))"
proof -
  define s0 where "s0 = (of_char c :: nat)"
  define sz where "sz = first_size s0"
  define s1 where "s1 = (of_char (rest ! 0) :: nat)"
  define s2 where "s2 = (of_char (rest ! 1) :: nat)"
  define s3 where "s3 = (of_char (rest ! 2) :: nat)"
  have lo: "128 \<le> accept_lo s0" by (rule accept_lo_ge)
  have sz: "2 \<le> sz \<and> sz \<le> 4" unfolding sz_def by (rule first_size_bounds)
  have unf: "DecodeRuneInString (c # rest) =
     (if s0 < 128 then (s0, 1)
      else if s0 < 194 \<or> 244 < s0 then (RuneError, 1)
      else if Suc (length rest) < sz then (RuneError, 1)
      else if s1 < accept_lo s0 \<or> accept_hi s0 < s1 then (RuneError, 1)
      else if sz \<le> 2 then ((s0 mod 32) * 64 + s1 mod 64, 2)
      else if s2 < 128 \<or> 191 < s2 then (RuneError, 1)
      else if sz \<le> 3 then ((s0 mod 16) * 4096 + (s1 mod 64) * 64 + s2 mod 64, 3)
      else if s3 < 128 \<or> 191 < s3 then (RuneError, 1)
      else ((s0 mod 8) * 262144 + (s1 mod 64) * 4096 + (s2 mod 64) * 64 + s3 mod 64, 4))"
    unfolding s0_def sz_def s1_def s2_def s3_def
    by (simp only: DecodeRuneInString.simps Let_def)
  have w: "w = snd (DecodeRuneInString (c # rest))" using assms by simp
  show ?thesis
    using lo sz
    unfolding w unf s1_def [symmetric] s2_def [symmetric] s3_def [symmetric]
    by (auto split: if_splits)
qed

lemma decode_tail_bytes:
  assumes "DecodeRuneInString (c # rest) = (r, w)" and "Suc j < w"
  shows "128 \<le> (of_char (rest ! j) :: nat)"
proof -
  from assms(2) decode_cases [OF assms(1)]
  have "j = 0 \<or> j = 1 \<or> j = 2" by auto
  with assms(2) decode_cases [OF assms(1)] show ?thesis by auto
qed

lemma decode_keeps_newline_out:
  assumes "DecodeRuneInString (c # rest) = (r, w)" and "\<not> IsSpace r"
  shows "newline \<notin> set (take w (c # rest))"
proof
  assume "newline \<in> set (take w (c # rest))"
  then obtain i where i: "i < w" "i < Suc (length rest)" "(c # rest) ! i = newline"
    by (auto simp: in_set_conv_nth)
  have c: "c \<noteq> newline"
  proof
    assume "c = newline"
    then have "DecodeRuneInString (c # rest) = (10, 1)"
      using decode_ascii [of c rest] by (simp add: newline_code)
    with assms show False by (simp add: IsSpace_def)
  qed
  with i obtain j where j: "i = Suc j" by (cases i) auto
  with i have rj: "rest ! j = newline" "Suc j < w" by auto
  from decode_tail_bytes [OF assms(1) rj(2)] rj(1) show False
    by (simp add: newline_code)
qed

lemma fields_loop_newline_free:
  "newline \<notin> set cur \<Longrightarrow> word \<in> set (fields_loop cur s) \<Longrightarrow> newline \<notin> set word"
proof (induction cur s rule: fields_loop.induct)
  case (1 cur)
  then show ?case by (auto split: if_splits)
next
  case (2 cur c rest)
  obtain r w where d: "DecodeRuneInString (c # rest) = (r, w)" by force
  show ?case
  proof (cases "IsSpace r")
    case True
    with 2 d show ?thesis by (auto split: if_splits)
  next
    case False
    have "newline \<notin> set (take w (c # rest))"
      using d False by (rule decode_keeps_newline_out)
    with 2 d False show ?thesis by auto
  qed
qed

lemma Fields_newline_free: "word \<in> set (Fields s) \<Longrightarrow> newline \<notin> set word"
  unfolding Fields_def by (rule fields_loop_newline_free) simp_all

lemma split_loop_no_sep: "sep \<notin> set s \<Longrightarrow> split_loop sep cur s = [cur @ s]"
  by (induction s arbitrary: cur) auto

lemma Split_no_sep: "sep \<notin> set s \<Longrightarrow> Split s sep = [s]"
  by (simp add: Split_def split_loop_no_sep)

section \<open>Facts about the similarity score\<close>

lemma fold_ssim_pixel:
  "fold (ssim_pixel g1 g2 y) xs (a, b, c) =
     (a + (\<Sum>x\<leftarrow>xs. gray g1 y x * gray g2 y x),
      b + (\<Sum>x\<leftarrow>xs. (gray g1 y x)\<^sup>2 + (gray g2 y x)\<^sup>2),
      c + (\<Sum>x\<leftarrow>xs. gray g1 y x * gray g2 y x))"
  by (induction xs arbitrary: a b c) (simp_all add: ssim_pixel_def Let_def algebra_simps)

lemma fold_ssim_rows:
  "fold (\<lambda>y. fold (ssim_pixel g1 g2 y) xs) ys (a, b, c) =
     (a + (\<Sum>y\<leftarrow>ys. \<Sum>x\<leftarrow>xs. gray g1 y x * gray g2 y x),
      b + (\<Sum>y\<leftarrow>ys. \<Sum>x\<leftarrow>xs. (gray g1 y x)\<^sup>2 + (gray g2 y x)\<^sup>2),
      c + (\<Sum>y\<leftarrow>ys. \<Sum>x\<leftarrow>xs. gray g1 y x * gray g2 y x))"
  by (induction ys arbitrary: a b c) (simp_all add: fold_ssim_pixel algebra_simps)

lemma ssim_sums_eq:
  "ssim_sums w h g1 g2 =
     ((\<Sum>y = 0..<h. \<Sum>x = 0..<w. gray g1 y x * gray g2 y x),
      (\<Sum>y = 0..<h. \<Sum>x = 0..<w. (gray g1 y x)\<^sup>2 + (gray g2 y x)\<^sup>2),
      (\<Sum>y = 0..<h. \<Sum>x = 0..<w. gray g1 y x * gray g2 y x))"
  by (simp add: ssim_sums_def fold_ssim_rows interv_sum_list_conv_sum_set_nat)

lemma ssim_sums_same:
  "ssim_sums w h g g = (energy w h g, 2 * energy w h g, energy w h g)"
  by (simp add: ssim_sums_eq energy_def power2_eq_square sum_distrib_left)

lemma energy_nonneg: "0 \<le> energy w h g"
  by (simp add: energy_def sum_nonneg)

lemma energy_pos:
  assumes "y < h" "x < w" "gray g y x \<noteq> 0"
  shows "0 < energy w h g"
proof -
  have "0 < (gray g y x)\<^sup>2" using assms(3) by simp
  also have "\<dots> \<le> (\<Sum>x = 0..<w. (gray g y x)\<^sup>2)"
    using assms(2) by (intro member_le_sum) auto
  also have "\<dots> \<le> energy w h g"
    unfolding energy_def using assms(1) by (intro member_le_sum) (auto simp: sum_nonneg)
  finally show ?thesis .
qed

lemma SSIM_same:
  assumes "CvtColor env img = g"
  shows "SSIM env img img =
     (4 * energy (Cols img) (Rows img) g + C2) / (energy (Cols img) (Rows img) g + C2)"
proof -
  have "0 \<le> energy (Cols img) (Rows img) g" by (rule energy_nonneg)
  then have "2 * energy (Cols img) (Rows img) g + C1 \<noteq> 0"
    by (simp add: C1_def)
  then show ?thesis
    using assms by (simp add: SSIM_def Let_def ssim_sums_same)
qed

lemma SSIM_same_gt_1:
  assumes "CvtColor env img = g" "0 < energy (Cols img) (Rows img) g"
  shows "1 < SSIM env img img"
  using assms(2) unfolding SSIM_same [OF assms(1)] by (simp add: C2_def)

lemma energy_flat: "energy 300 300 (flat_image v) = 90000 * (real (unat v))\<^sup>2"
  by (simp add: energy_def flat_image_def gray_def)

lemma ssim_sums_flat:
  "ssim_sums 300 300 (flat_image a) (flat_image b) =
     (90000 * (real (unat a) * real (unat b)),
      90000 * ((real (unat a))\<^sup>2 + (real (unat b))\<^sup>2),
      90000 * (real (unat a) * real (unat b)))"
  by (simp add: ssim_sums_eq flat_image_def gray_def)

lemma CompareImages_example:
  assumes "\<not> missing p" "\<not> missing q"
  shows "CompareImages (example_env missing shade ocr) p q =
     Inr (SSIM (example_env missing shade ocr) (flat_image (shade p)) (flat_image (shade q)))"
  using assms
  by (simp add: CompareImages_def ValidateImage_def stat_not_exist_def IsNotExist_def
      example_env_def Empty_def flat_image_def)

lemma SSIM_example:
  "SSIM (example_env missing shade ocr) (flat_image a) (flat_image b) =
     ((2 * (90000 * (real (unat a) * real (unat b))) + C1)
        / (90000 * ((real (unat a))\<^sup>2 + (real (unat b))\<^sup>2) + C1))
     * ((2 * (90000 * ((real (unat a))\<^sup>2 + (real (unat b))\<^sup>2)) + C2)
        / (90000 * (real (unat a) * real (unat b)) + C2))"
proof -
  have "CvtColor (example_env missing shade ocr) = (\<lambda>m. m)"
    by (simp add: example_env_def)
  moreover have "Cols (flat_image a) = 300" "Rows (flat_image a) = 300"
    by (simp_all add: flat_image_def)
  ultimately show ?thesis
    by (simp add: SSIM_def Let_def ssim_sums_flat)
qed

lemma SSIM_black_black: "SSIM (example_env missing shade ocr) (flat_image 0) (flat_image 0) = 1"
  by (simp add: SSIM_example C1_def C2_def)

lemma SSIM_white_white: "3.99 < SSIM (example_env missing shade ocr) (flat_image 255) (flat_image 255)"
  by (simp add: SSIM_example C1_def C2_def)


section \<open>Facts about the scanning loop\<close>

lemma started_names_append:
  "started_names (xs @ ys) = started_names xs @ started_names ys"
  by (induction xs rule: started_names.induct) simp_all

lemma processed_upd:
  "processed (m(k \<mapsto> True)) f \<longleftrightarrow> f = k \<or> processed m f"
  by (simp add: processed_def)

lemma scan_files_skip:
  "\<not> candidate env m e \<Longrightarrow> scan_files env d m (e # files) = scan_files env d m files"
  by (auto simp: candidate_def Let_def)

lemma scan_files_take:
  "candidate env m e \<Longrightarrow>
   scan_files env d m (e # files) =
     (fst (scan_files env d (m(Name e \<mapsto> True)) files),
      Go (Name e) (filepath_Join env d (Name e))
        # snd (scan_files env d (m(Name e \<mapsto> True)) files))"
  by (auto simp: candidate_def Let_def split: prod.splits)

lemma candidate_upd:
  "candidate env (m(k \<mapsto> True)) e \<longleftrightarrow> candidate env m e \<and> Name e \<noteq> k"
  by (auto simp: candidate_def processed_upd)

lemma scan_files_started:
  "set (started_names (snd (scan_files env d m files))) =
     {Name f |f. f \<in> set files \<and> candidate env m f}"
proof (induction files arbitrary: m)
  case Nil
  show ?case by simp
next
  case (Cons e files)
  show ?case
  proof (cases "candidate env m e")
    case True
    have "set (started_names (snd (scan_files env d m (e # files)))) =
        insert (Name e) {Name f |f. f \<in> set files \<and> candidate env (m(Name e \<mapsto> True)) f}"
      by (simp add: scan_files_take [OF True] Cons.IH del: scan_files.simps fun_upd_apply)
    also have "\<dots> = {Name f |f. f \<in> set (e # files) \<and> candidate env m f}"
      using True by (auto simp: candidate_upd)
    finally show ?thesis .
  next
    case False
    then show ?thesis
      by (auto simp: scan_files_skip Cons.IH simp del: scan_files.simps fun_upd_apply)
  qed
qed

lemma scan_files_distinct:
  "distinct (started_names (snd (scan_files env d m files)))"
proof (induction files arbitrary: m)
  case Nil
  show ?case by simp
next
  case (Cons e files)
  show ?case
  proof (cases "candidate env m e")
    case True
    have "Name e \<notin> set (started_names (snd (scan_files env d (m(Name e \<mapsto> True)) files)))"
      by (simp add: scan_files_started candidate_upd)
    then show ?thesis
      by (simp add: scan_files_take [OF True] Cons.IH del: scan_files.simps fun_upd_apply)
  next
    case False
    then show ?thesis by (simp add: scan_files_skip Cons.IH del: scan_files.simps fun_upd_apply)
  qed
qed

lemma scan_files_processed:
  "processed (fst (scan_files env d m files)) f \<longleftrightarrow>
     processed m f \<or> f \<in> set (started_names (snd (scan_files env d m files)))"
proof (induction files arbitrary: m)
  case Nil
  show ?case by simp
next
  case (Cons e files)
  show ?case
  proof (cases "candidate env m e")
    case True
    show ?thesis
      by (auto simp: scan_files_take [OF True] Cons.IH processed_upd simp del: scan_files.simps fun_upd_apply)
  next
    case False
    then show ?thesis by (simp add: scan_files_skip Cons.IH del: scan_files.simps fun_upd_apply)
  qed
qed


lemma scan_files_no_readdir:
  "filter is_readdir (snd (scan_files env d m files)) = []"
proof (induction files arbitrary: m)
  case Nil
  show ?case by simp
next
  case (Cons e files)
  show ?case
  proof (cases "candidate env m e")
    case True
    show ?thesis by (simp add: scan_files_take [OF True] Cons.IH del: scan_files.simps fun_upd_apply)
  next
    case False
    then show ?thesis by (simp add: scan_files_skip Cons.IH del: scan_files.simps fun_upd_apply)
  qed
qed

lemma scan_loop_Inl:
  "scan_loop env d m (Inl err # rs) =
     (fst (scan_loop env d m rs),
      ReadDir d # Log (''Error reading directory: '' @ err) # snd (scan_loop env d m rs))"
  by (simp split: prod.splits)

lemma scan_loop_Inr:
  "scan_loop env d m (Inr files # rs) =
     (fst (scan_loop env d (fst (scan_files env d m files)) rs),
      ReadDir d # snd (scan_files env d m files) @ Sleep
        # snd (scan_loop env d (fst (scan_files env d m files)) rs))"
  by (simp split: prod.splits)

lemma scan_loop_append:
  "scan_loop env d m (xs @ ys) =
     (fst (scan_loop env d (fst (scan_loop env d m xs)) ys),
      snd (scan_loop env d m xs) @ snd (scan_loop env d (fst (scan_loop env d m xs)) ys))"
proof (induction xs arbitrary: m)
  case Nil
  show ?case by simp
next
  case (Cons r xs)
  show ?case
  proof (cases r)
    case (Inl err)
    then show ?thesis using Cons.IH [of m] by (simp add: scan_loop_Inl del: scan_loop.simps)
  next
    case (Inr files)
    then show ?thesis
      using Cons.IH [of "fst (scan_files env d m files)"] by (simp add: scan_loop_Inr del: scan_loop.simps)
  qed
qed

lemma scan_loop_readdirs:
  "length (filter is_readdir (snd (scan_loop env d m rs))) = length rs"
proof (induction rs arbitrary: m)
  case Nil
  show ?case by simp
next
  case (Cons r rs)
  show ?case
  proof (cases r)
    case (Inl err)
    then show ?thesis using Cons.IH [of m] by (simp add: scan_loop_Inl del: scan_loop.simps)
  next
    case (Inr files)
    then show ?thesis
      using Cons.IH [of "fst (scan_files env d m files)"]
      by (simp add: scan_loop_Inr scan_files_no_readdir del: scan_loop.simps)
  qed
qed


lemma scan_loop_processed:
  "processed (fst (scan_loop env d m rs)) f \<longleftrightarrow>
     processed m f \<or> f \<in> set (started_names (snd (scan_loop env d m rs)))"
proof (induction rs arbitrary: m)
  case Nil
  show ?case by simp
next
  case (Cons r rs)
  show ?case
  proof (cases r)
    case (Inl err)
    then show ?thesis by (simp add: scan_loop_Inl Cons.IH del: scan_loop.simps)
  next
    case (Inr files)
    then show ?thesis
      by (auto simp: scan_loop_Inr Cons.IH scan_files_processed started_names_append
          simp del: scan_loop.simps)
  qed
qed

lemma deferred_mark_same: "processed m f \<Longrightarrow> processed (deferred_mark m f) = processed m"
  by (auto simp: deferred_mark_def processed_upd fun_eq_iff)

lemma AnalyzeDirectory_ok:
  "ValidateImage env ref = Inr img \<Longrightarrow>
   AnalyzeDirectory env d ref listings = snd (scan_loop env d Map.empty listings)"
  by (simp add: AnalyzeDirectory_def)

lemma AnalyzeDirectory_fail:
  "ValidateImage env ref = Inl err \<Longrightarrow>
   AnalyzeDirectory env d ref listings = [Log (''Reference image not found: '' @ err)]"
  by (simp add: AnalyzeDirectory_def)

lemma processed_upd_cong:
  assumes "processed m = processed m'"
  shows "processed (m(k \<mapsto> True)) = processed (m'(k \<mapsto> True))"
proof
  fix f
  have "processed m f = processed m' f" using assms by (rule fun_cong)
  then show "processed (m(k \<mapsto> True)) f = processed (m'(k \<mapsto> True)) f"
    unfolding processed_upd by (rule arg_cong)
qed

lemma candidate_cong:
  assumes "processed m = processed m'"
  shows "candidate env m e = candidate env m' e"
  unfolding candidate_def assms ..

lemma scan_files_cong:
  "processed m = processed m' \<Longrightarrow>
   snd (scan_files env d m files) = snd (scan_files env d m' files)
   \<and> processed (fst (scan_files env d m files)) = processed (fst (scan_files env d m' files))"
proof (induction files arbitrary: m m')
  case Nil
  then show ?case by simp
next
  case (Cons e files)
  show ?case
  proof (cases "candidate env m e")
    case True
    then have True': "candidate env m' e"
      unfolding candidate_cong [OF Cons.prems] .
    have "processed (m(Name e \<mapsto> True)) = processed (m'(Name e \<mapsto> True))"
      using Cons.prems by (rule processed_upd_cong)
    from Cons.IH [OF this]
    have 1: "snd (scan_files env d (m(Name e \<mapsto> True)) files)
        = snd (scan_files env d (m'(Name e \<mapsto> True)) files)"
      and 2: "processed (fst (scan_files env d (m(Name e \<mapsto> True)) files))
        = processed (fst (scan_files env d (m'(Name e \<mapsto> True)) files))"
      by blast+
    show ?thesis
      unfolding scan_files_take [OF True] scan_files_take [OF True'] fst_conv snd_conv 1 2
      by (intro conjI refl)
  next
    case False
    then have False': "\<not> candidate env m' e"
      unfolding candidate_cong [OF Cons.prems] .
    show ?thesis
      unfolding scan_files_skip [OF False] scan_files_skip [OF False']
      using Cons.prems by (rule Cons.IH)
  qed
qed

lemma scan_loop_cong:
  "processed m = processed m' \<Longrightarrow>
   snd (scan_loop env d m rs) = snd (scan_loop env d m' rs)
   \<and> processed (fst (scan_loop env d m rs)) = processed (fst (scan_loop env d m' rs))"
proof (induction rs arbitrary: m m')
  case Nil
  then show ?case by simp
next
  case (Cons r rs)
  show ?case
  proof (cases r)
    case (Inl err)
    from Cons.IH [OF Cons.prems]
    have 1: "snd (scan_loop env d m rs) = snd (scan_loop env d m' rs)"
      and 2: "processed (fst (scan_loop env d m rs)) = processed (fst (scan_loop env d m' rs))"
      by blast+
    show ?thesis
      unfolding Inl scan_loop_Inl fst_conv snd_conv 1 2 by (intro conjI refl)
  next
    case (Inr files)
    from scan_files_cong [OF Cons.prems, of env d files]
    have a: "snd (scan_files env d m files) = snd (scan_files env d m' files)"
      and b: "processed (fst (scan_files env d m files)) = processed (fst (scan_files env d m' files))"
      by blast+
    from Cons.IH [OF b]
    have 1: "snd (scan_loop env d (fst (scan_files env d m files)) rs)
        = snd (scan_loop env d (fst (scan_files env d m' files)) rs)"
      and 2: "processed (fst (scan_loop env d (fst (scan_files env d m files)) rs))
        = processed (fst (scan_loop env d (fst (scan_files env d m' files)) rs))"
      by blast+
    show ?thesis
      unfolding Inr scan_loop_Inr fst_conv snd_conv a 1 2 by (intro conjI refl)
  qed
qed

lemma deferred_mark_unseen:
  assumes "processed m f"
  shows "snd (scan_loop env d (deferred_mark m f) rs) = snd (scan_loop env d m rs)"
    and "snd (scan_files env d (deferred_mark m f) files) = snd (scan_files env d m files)"
  using scan_loop_cong [OF deferred_mark_same [OF assms]]
    scan_files_cong [OF deferred_mark_same [OF assms]] by blast+

section \<open>Facts about interleaved runs\<close>










lemma run_Cons: "run env d s (a # schedule) = run env d (step env d s a) schedule"
  by (simp add: run_def)

lemma run_Nil: "run env d s [] = s"
  by (simp add: run_def)






section \<open>The example environments, evaluated\<close>

lemma example_env_sel:
  "stat_not_exist (example_env missing shade ocr) = missing"
  "IMRead (example_env missing shade ocr) p flag = (if missing p then NewMat else flat_image (shade p))"
  "ocr_Text (example_env missing shade ocr) = ocr"
  "unicode_ToLower (example_env missing shade ocr) = (\<lambda>s. s)"
  "filepath_Join (example_env missing shade ocr) d f = d @ ''/'' @ f"
  by (auto simp: example_env_def stat_not_exist_def IsNotExist_def fun_eq_iff)

lemma flat_image_not_Empty: "\<not> Empty (flat_image v)"
  by (simp add: Empty_def flat_image_def)

lemma card_env_sel:
  "stat_not_exist card_env p = False"
  "IMRead card_env p flag = flat_image 0"
  "filepath_Join card_env d f = d @ ''/'' @ f"
  by (simp_all add: card_env_def example_env_sel)

lemma NewMat_Empty: "Empty NewMat"
  by (simp add: Empty_def NewMat_def)

lemma broken_env_sel:
  "stat_not_exist broken_env p = (p = ''img/gone.jpg'')"
  "IMRead broken_env p flag =
     (if p = ''img/gone.jpg'' \<or> p = ''img/bad.jpg'' then NewMat else flat_image 0)"
  by (simp_all add: broken_env_def stat_not_exist_def IsNotExist_def)

lemma Fields_card: "Fields ''ID CARD No 7 ABCDEFG12345'' = [''ID'', ''CARD'', ''No'', ''7'', ''ABCDEFG12345'']"
  by (simp add: Fields_def IsSpace_def)

lemma Extract_card:
  "ExtractTextWithEnglishAndNumbers card_env ''img/a.jpg'' = Inr ''ABCDEFG12345''"
  by (simp add: ExtractTextWithEnglishAndNumbers_def card_env_def example_env_sel
      flat_image_not_Empty Fields_card)

lemma Compare_card: "CompareImages card_env ''img/a.jpg'' ''img.jpg'' = Inr 1"
  by (simp add: card_env_def CompareImages_example SSIM_black_black)

lemma Validate_card: "ValidateImage card_env p = Inr (flat_image 0)"
  by (simp add: ValidateImage_def card_env_sel flat_image_not_Empty)

lemma Validate_lost: "ValidateImage lost_env ''img.jpg'' = Inl ''image not found: img.jpg''"
  by (simp add: ValidateImage_def lost_env_def example_env_sel)

lemma Fields_header:
  "Fields ''HEADER\<newline>ABCDEFG12345\<newline>FOOTER'' = [''HEADER'', ''ABCDEFG12345'', ''FOOTER'']"
  by (simp add: Fields_def IsSpace_def)

lemma Split_header:
  "Split ''HEADER\<newline>ABCDEFG12345\<newline>FOOTER'' newline = [''HEADER'', ''ABCDEFG12345'', ''FOOTER'']"
  by (simp add: Split_def newline_def)

lemma print_code_empty: "print_code [] = []"
  by (simp add: print_code_def Split_def)

lemma lower_a: "ToLower ul ''a.jpg'' = ''a.jpg''"
  by (simp add: ToLower_def) code_simp

lemma lower_b: "ToLower ul ''b.JPG'' = ''b.jpg''"
  by (simp add: ToLower_def) code_simp

lemma lower_c: "ToLower ul ''c.png'' = ''c.png''"
  by (simp add: ToLower_def) code_simp

lemma lower_d: "ToLower ul ''d.jpg'' = ''d.jpg''"
  by (simp add: ToLower_def) code_simp

lemma scan_img_listing:
  "scan_files env d Map.empty img_listing =
     ([''a.jpg'' \<mapsto> True, ''b.JPG'' \<mapsto> True],
      [Go ''a.jpg'' (filepath_Join env d ''a.jpg''), Go ''b.JPG'' (filepath_Join env d ''b.JPG'')])"
  by (simp add: img_listing_def Let_def processed_def HasSuffix_def lower_a lower_b lower_c)

lemma scan_later_listing:
  "scan_files env d [''a.jpg'' \<mapsto> True, ''b.JPG'' \<mapsto> True] later_listing =
     ([''a.jpg'' \<mapsto> True, ''b.JPG'' \<mapsto> True, ''d.jpg'' \<mapsto> True],
      [Go ''d.jpg'' (filepath_Join env d ''d.jpg'')])"
  by (simp add: later_listing_def Let_def processed_def HasSuffix_def lower_a lower_b lower_c lower_d)

lemma run_two_scans:
  "scan_loop card_env ''img'' Map.empty [Inr img_listing, Inr later_listing] =
     ([''a.jpg'' \<mapsto> True, ''b.JPG'' \<mapsto> True, ''d.jpg'' \<mapsto> True],
      [ReadDir ''img'', Go ''a.jpg'' ''img/a.jpg'', Go ''b.JPG'' ''img/b.JPG'', Sleep,
       ReadDir ''img'', Go ''d.jpg'' ''img/d.jpg'', Sleep])"
  by (simp add: scan_img_listing scan_later_listing card_env_sel)

lemma nested_env_sel:
  "Stat nested_env p = (if p = ''img/a.jpg/x'' then ENOTDIR
                   else if p = ''img/locked/b.jpg'' then EACCES else StatOK)"
  "IMRead nested_env p flag =
     (if p = ''img/a.jpg/x'' \<or> p = ''img/locked/b.jpg'' then NewMat else flat_image 0)"
  by (simp_all add: nested_env_def)

lemma broken_env_Stat:
  "Stat broken_env p = (if p = ''img/gone.jpg'' then ENOENT else StatOK)"
  by (simp add: broken_env_def)


section \<open>A second line of twelve characters\<close>

text \<open>
  Claim C1. The OCR engine reads the three lines \<open>HEADER\<close>, \<open>ABCDEFG12345\<close>, \<open>FOOTER\<close> in
  a file whose similarity is above the threshold. The second line of this text has
  twelve characters, and lines 170 to 173 applied to this text would print it. The task
  applies them to what \<open>ExtractTextWithEnglishAndNumbers\<close> returns, which is the empty
  string here (the text has three words, not more): it calls the extractor and prints
  nothing.
\<close>

theorem header_text_prints_nothing:
  assumes "CompareImages env path referenceImagePath = Inr similarity"
    and "0.8 < similarity"
    and "\<not> Empty (IMRead env path IMReadColor)"
    and "ocr_Text env path = Inr ''HEADER\<newline>ABCDEFG12345\<newline>FOOTER''"
  shows "Split ''HEADER\<newline>ABCDEFG12345\<newline>FOOTER'' newline ! 1 = ''ABCDEFG12345''
    \<and> print_code ''HEADER\<newline>ABCDEFG12345\<newline>FOOTER'' = [Println ''ABCDEFG12345'']
    \<and> ExtractTextWithEnglishAndNumbers env path = Inr []
    \<and> go_func env referenceImagePath path = [CallExtract path]"
proof -
  have ex: "ExtractTextWithEnglishAndNumbers env path = Inr []"
    using assms(3,4) by (simp add: ExtractTextWithEnglishAndNumbers_def Fields_header)
  have "go_func env referenceImagePath path = [CallExtract path]"
    using assms(1,2) by (simp add: go_func_def on_similarity_def ex print_code_empty)
  with ex show ?thesis by (simp add: Split_header print_code_def)
qed

theorem header_text_prints_nothing_witness:
  "CompareImages header_env ''img/a.jpg'' ''img.jpg'' = Inr 1
   \<and> ocr_Text header_env ''img/a.jpg'' = Inr ''HEADER\<newline>ABCDEFG12345\<newline>FOOTER''
   \<and> Split ''HEADER\<newline>ABCDEFG12345\<newline>FOOTER'' newline ! 1 = ''ABCDEFG12345''
   \<and> print_code ''HEADER\<newline>ABCDEFG12345\<newline>FOOTER'' = [Println ''ABCDEFG12345'']
   \<and> ExtractTextWithEnglishAndNumbers header_env ''img/a.jpg'' = Inr []
   \<and> go_func header_env ''img.jpg'' ''img/a.jpg'' = [CallExtract ''img/a.jpg'']"
proof -
  have c: "CompareImages header_env ''img/a.jpg'' ''img.jpg'' = Inr 1"
    by (simp add: header_env_def CompareImages_example SSIM_black_black)
  have e: "\<not> Empty (IMRead header_env ''img/a.jpg'' IMReadColor)"
    by (simp add: header_env_def example_env_sel flat_image_not_Empty)
  have t: "ocr_Text header_env ''img/a.jpg'' = Inr ''HEADER\<newline>ABCDEFG12345\<newline>FOOTER''"
    by (simp add: header_env_def example_env_sel)
  have "(0.8 :: real) < 1" by simp
  from header_text_prints_nothing [OF c this e t] c t show ?thesis by simp
qed

section \<open>The task never prints\<close>

lemma Extract_result:
  assumes "ExtractTextWithEnglishAndNumbers env path = Inr s"
  shows "\<exists>t. ocr_Text env path = Inr t \<and>
           s = (if length (Fields t) > 3 then last (Fields t) else [])"
proof (cases "ocr_Text env path")
  case (Inl err)
  with assms show ?thesis
    by (simp add: ExtractTextWithEnglishAndNumbers_def Let_def split: if_splits)
next
  case (Inr t)
  have "3 < length (Fields t) \<Longrightarrow> Fields t ! (length (Fields t) - 1) = last (Fields t)"
    by (subst last_conv_nth) auto
  with assms Inr have "s = (if length (Fields t) > 3 then last (Fields t) else [])"
    by (auto simp: ExtractTextWithEnglishAndNumbers_def Let_def split: if_splits)
  with Inr show ?thesis by blast
qed

lemma Extract_newline_free:
  assumes "ExtractTextWithEnglishAndNumbers env path = Inr s"
  shows "newline \<notin> set s"
proof -
  from Extract_result [OF assms] obtain t where
    s: "s = (if length (Fields t) > 3 then last (Fields t) else [])" by blast
  show ?thesis
  proof (cases "length (Fields t) > 3")
    case True
    then have "last (Fields t) \<in> set (Fields t)" by (intro last_in_set) auto
    then show ?thesis using s True by (simp add: Fields_newline_free)
  next
    case False
    then show ?thesis using s by simp
  qed
qed

lemma print_code_single_line: "newline \<notin> set s \<Longrightarrow> print_code s = []"
  by (simp add: print_code_def Split_no_sep)

lemma on_similarity_no_println: "\<not> list_ex is_println (on_similarity env path similarity)"
  by (auto simp: on_similarity_def print_code_single_line Extract_newline_free
      split: sum.splits)

lemma go_func_no_println: "\<not> list_ex is_println (go_func env ref path)"
  by (auto simp: go_func_def on_similarity_no_println split: sum.splits)

text \<open>
  Claim C2. Whatever the OCR engine reads, a text that \<open>ExtractTextWithEnglishAndNumbers\<close>
  returns is the last white-space separated word of what was read, or the empty string
  when there are three words or fewer. It holds no line feed, so splitting it at line
  feeds gives one line, the test for a second line of length 12 fails, and the task
  prints nothing: no run of \<open>go_func\<close> has a \<open>Println\<close> event.
\<close>

theorem extractor_result_is_one_line:
  "(ExtractTextWithEnglishAndNumbers env path = Inr s \<longrightarrow>
      (\<exists>t. ocr_Text env path = Inr t \<and>
           s = (if length (Fields t) > 3 then last (Fields t) else []))
      \<and> newline \<notin> set s
      \<and> Split s newline = [s]
      \<and> print_code s = [])
   \<and> \<not> list_ex is_println (go_func env referenceImagePath path)"
  using Extract_result Extract_newline_free Split_no_sep print_code_single_line
    go_func_no_println by blast

theorem extractor_result_is_one_line_witness:
  "ExtractTextWithEnglishAndNumbers card_env ''img/a.jpg'' = Inr ''ABCDEFG12345''
   \<and> ocr_Text card_env ''img/a.jpg'' = Inr ''ID CARD No 7 ABCDEFG12345''
   \<and> newline \<notin> set ''ABCDEFG12345''
   \<and> Split ''ABCDEFG12345'' newline = [''ABCDEFG12345'']
   \<and> print_code ''ABCDEFG12345'' = []
   \<and> go_func card_env ''img.jpg'' ''img/a.jpg'' = [CallExtract ''img/a.jpg'']"
proof -
  have ocr: "ocr_Text card_env ''img/a.jpg'' = Inr ''ID CARD No 7 ABCDEFG12345''"
    by (simp add: card_env_def example_env_sel)
  from extractor_result_is_one_line [of card_env "''img/a.jpg''" "''ABCDEFG12345''" "''img.jpg''"]
    Extract_card
  have one: "newline \<notin> set ''ABCDEFG12345''"
       "Split ''ABCDEFG12345'' newline = [''ABCDEFG12345'']"
       "print_code ''ABCDEFG12345'' = []"
    by blast+
  have "go_func card_env ''img.jpg'' ''img/a.jpg'' = [CallExtract ''img/a.jpg'']"
    by (simp add: go_func_def Compare_card on_similarity_def Extract_card one(3))
  with Extract_card ocr one show ?thesis by simp
qed

section \<open>The score of identical images\<close>

text \<open>
  Claim C3. Identical images should get the maximum score, about 1.0. For two files that
  hold the same white image, \<open>CompareImages\<close> returns a score above 3.99.
\<close>

theorem identical_white_images_score:
  "CompareImages white_env ''img/a.jpg'' ''img.jpg''
     = Inr (SSIM white_env (flat_image 255) (flat_image 255))
   \<and> 3.99 < SSIM white_env (flat_image 255) (flat_image 255)"
proof
  show "CompareImages white_env ''img/a.jpg'' ''img.jpg''
      = Inr (SSIM white_env (flat_image 255) (flat_image 255))"
    by (simp add: white_env_def CompareImages_example)
  show "3.99 < SSIM white_env (flat_image 255) (flat_image 255)"
    unfolding white_env_def by (rule SSIM_white_white)
qed

lemma stabilizing_constants: "C1 = (0.01 * 255)\<^sup>2 \<and> C2 = (0.03 * 255)\<^sup>2"
  by (simp add: C1_def C2_def power2_eq_square)

text \<open>
  Claim C4. The score should lie between 0 and 1, with 1.0 for identical images. For an
  image compared with itself, of which some pixel visited by the loops is not black,
  \<open>SSIM\<close> returns \<open>(4 E + C2) / (E + C2)\<close>, where \<open>E\<close> is the sum of the squared grey values,
  and this is above 1.
\<close>

theorem identical_images_score_above_one:
  assumes "CvtColor env img = g" and "y < Rows img" and "x < Cols img"
    and "gray g y x \<noteq> 0"
  shows "SSIM env img img =
       (4 * energy (Cols img) (Rows img) g + C2) / (energy (Cols img) (Rows img) g + C2)
     \<and> 1 < SSIM env img img"
proof -
  have "0 < energy (Cols img) (Rows img) g"
    using assms(2-4) by (intro energy_pos)
  with assms(1) show ?thesis
    using SSIM_same SSIM_same_gt_1 by blast
qed

theorem identical_images_score_above_one_witness:
  "CvtColor white_env (flat_image 128) = flat_image 128
   \<and> (7 :: nat) < Rows (flat_image 128) \<and> (9 :: nat) < Cols (flat_image 128)
   \<and> gray (flat_image 128) 7 9 = 128
   \<and> 1 < SSIM white_env (flat_image 128) (flat_image 128)"
proof -
  have a: "CvtColor white_env (flat_image 128) = flat_image 128"
    by (simp add: white_env_def example_env_def)
  have b: "(7 :: nat) < Rows (flat_image 128)" "(9 :: nat) < Cols (flat_image 128)"
    by (simp_all add: flat_image_def)
  have c: "gray (flat_image 128) 7 9 = 128"
    by (simp add: gray_def flat_image_def)
  then have "gray (flat_image 128) 7 9 \<noteq> 0" by simp
  from identical_images_score_above_one [OF a b this] a b c show ?thesis by simp
qed

section \<open>The threshold\<close>



section \<open>The watcher starts a task at most once for a file name\<close>



section \<open>Which entries are candidates\<close>

lemma scan_files_events:
  "snd (scan_files env d m files) =
     map (\<lambda>f. Go f (filepath_Join env d f)) (started_names (snd (scan_files env d m files)))"
proof (induction files arbitrary: m)
  case Nil
  show ?case by simp
next
  case (Cons e files)
  show ?case
  proof (cases "candidate env m e")
    case True
    show ?thesis
      unfolding scan_files_take [OF True] snd_conv started_names.simps list.map
      using Cons.IH [of "m(Name e \<mapsto> True)"] by (intro conjI arg_cong2 [where f = Cons] refl)
  next
    case False
    show ?thesis
      unfolding scan_files_skip [OF False] by (rule Cons.IH)
  qed
qed

text \<open>
  Claim C7. In one scan the names for which a task is started are those of the entries
  that are not directories, whose lower-cased name ends in \<open>.jpg\<close>, and that are not marked
  in \<open>processedFiles\<close> when the scan begins. Each of them is started once, with the path
  joined from the directory and the name, and the scan starts nothing else. These names
  are claimed: after the scan a name is marked if and only if it was marked before or is
  one of them. For a directory holding \<open>a.jpg\<close>, \<open>b.JPG\<close> and \<open>c.png\<close> and nothing marked, the
  names started and marked are \<open>a.jpg\<close> and \<open>b.JPG\<close>.
\<close>

theorem candidates_of_a_scan:
  "set (started_names (snd (scan_files env directory processedFiles files))) =
     {Name e |e. e \<in> set files \<and> \<not> IsDir e
        \<and> HasSuffix (ToLower (unicode_ToLower env) (Name e)) ''.jpg''
        \<and> \<not> processed processedFiles (Name e)}
   \<and> distinct (started_names (snd (scan_files env directory processedFiles files)))
   \<and> snd (scan_files env directory processedFiles files) =
       map (\<lambda>f. Go f (filepath_Join env directory f))
         (started_names (snd (scan_files env directory processedFiles files)))
   \<and> (processed (fst (scan_files env directory processedFiles files)) filename \<longleftrightarrow>
        processed processedFiles filename
        \<or> filename \<in> {Name e |e. e \<in> set files \<and> \<not> IsDir e
              \<and> HasSuffix (ToLower (unicode_ToLower env) (Name e)) ''.jpg''
              \<and> \<not> processed processedFiles (Name e)})
   \<and> started_names (snd (scan_files env directory Map.empty img_listing)) = [''a.jpg'', ''b.JPG'']
   \<and> fst (scan_files env directory Map.empty img_listing) = [''a.jpg'' \<mapsto> True, ''b.JPG'' \<mapsto> True]"
proof -
  let ?C = "{Name e |e. e \<in> set files \<and> \<not> IsDir e
        \<and> HasSuffix (ToLower (unicode_ToLower env) (Name e)) ''.jpg''
        \<and> \<not> processed processedFiles (Name e)}"
  have s: "set (started_names (snd (scan_files env directory processedFiles files))) = ?C"
    by (simp add: scan_files_started candidate_def)
  have p: "processed (fst (scan_files env directory processedFiles files)) filename \<longleftrightarrow>
        processed processedFiles filename \<or> filename \<in> ?C"
    unfolding s [symmetric] by (rule scan_files_processed)
  have e: "started_names (snd (scan_files env directory Map.empty img_listing)) = [''a.jpg'', ''b.JPG'']"
       "fst (scan_files env directory Map.empty img_listing) = [''a.jpg'' \<mapsto> True, ''b.JPG'' \<mapsto> True]"
    by (simp_all add: scan_img_listing)
  from s p e scan_files_distinct [of env directory processedFiles files]
    scan_files_events [of env directory processedFiles files]
  show ?thesis by blast
qed

theorem candidates_of_a_scan_witness:
  "{Name e |e. e \<in> set later_listing \<and> \<not> IsDir e
        \<and> HasSuffix (ToLower (unicode_ToLower card_env) (Name e)) ''.jpg''
        \<and> \<not> processed [''a.jpg'' \<mapsto> True] (Name e)} = {''b.JPG'', ''d.jpg''}
   \<and> scan_files card_env ''img'' [''a.jpg'' \<mapsto> True] later_listing =
     ([''a.jpg'' \<mapsto> True, ''b.JPG'' \<mapsto> True, ''d.jpg'' \<mapsto> True],
      [Go ''b.JPG'' ''img/b.JPG'', Go ''d.jpg'' ''img/d.jpg''])
   \<and> processed (fst (scan_files card_env ''img'' [''a.jpg'' \<mapsto> True] later_listing)) ''d.jpg''
   \<and> \<not> processed (fst (scan_files card_env ''img'' [''a.jpg'' \<mapsto> True] later_listing)) ''c.png''
   \<and> started_names (snd (scan_files card_env ''img'' Map.empty img_listing)) = [''a.jpg'', ''b.JPG'']
   \<and> fst (scan_files card_env ''img'' Map.empty img_listing) = [''a.jpg'' \<mapsto> True, ''b.JPG'' \<mapsto> True]"
proof -
  have run: "scan_files card_env ''img'' [''a.jpg'' \<mapsto> True] later_listing =
     ([''a.jpg'' \<mapsto> True, ''b.JPG'' \<mapsto> True, ''d.jpg'' \<mapsto> True],
      [Go ''b.JPG'' ''img/b.JPG'', Go ''d.jpg'' ''img/d.jpg''])"
    by (simp add: later_listing_def Let_def processed_def HasSuffix_def lower_a lower_b lower_c
        lower_d card_env_sel)
  then have names: "set (started_names (snd (scan_files card_env ''img'' [''a.jpg'' \<mapsto> True] later_listing)))
      = {''b.JPG'', ''d.jpg''}"
    by simp
  have marks: "processed (fst (scan_files card_env ''img'' [''a.jpg'' \<mapsto> True] later_listing)) ''d.jpg''"
    "\<not> processed (fst (scan_files card_env ''img'' [''a.jpg'' \<mapsto> True] later_listing)) ''c.png''"
    unfolding run by (simp_all add: processed_def)
  from candidates_of_a_scan [where env = card_env and directory = "''img''"
      and processedFiles = "[''a.jpg'' \<mapsto> True]" and files = later_listing] names run marks
  show ?thesis by simp
qed

section \<open>The reference image and failed listings\<close>

text \<open>
  Claim C8. When the reference image cannot be loaded (the path is missing or the file
  cannot be decoded), \<open>AnalyzeDirectory\<close> writes one line on the log and returns: it
  never calls \<open>os.ReadDir\<close> and starts no task. When the reference image loads, the loop
  runs for as long as there are listings: it calls \<open>os.ReadDir\<close> once for each of them.
\<close>

theorem reference_image_gates_the_loop:
  "(ValidateImage env referenceImagePath = Inl err \<longrightarrow>
      AnalyzeDirectory env directory referenceImagePath listings
        = [Log (''Reference image not found: '' @ err)])
   \<and> (stat_not_exist env referenceImagePath
        \<or> Empty (IMRead env referenceImagePath IMReadGrayScale) \<longrightarrow>
      filter is_readdir (AnalyzeDirectory env directory referenceImagePath listings) = []
      \<and> started_names (AnalyzeDirectory env directory referenceImagePath listings) = [])
   \<and> (ValidateImage env referenceImagePath = Inr img \<longrightarrow>
      length (filter is_readdir (AnalyzeDirectory env directory referenceImagePath listings))
        = length listings)"
proof (intro conjI impI)
  assume "ValidateImage env referenceImagePath = Inl err"
  then show "AnalyzeDirectory env directory referenceImagePath listings
      = [Log (''Reference image not found: '' @ err)]"
    by (rule AnalyzeDirectory_fail)
next
  assume "stat_not_exist env referenceImagePath
      \<or> Empty (IMRead env referenceImagePath IMReadGrayScale)"
  then obtain err where "ValidateImage env referenceImagePath = Inl err"
    by (cases "stat_not_exist env referenceImagePath") (auto simp: ValidateImage_def Let_def)
  then have a: "AnalyzeDirectory env directory referenceImagePath listings
      = [Log (''Reference image not found: '' @ err)]"
    by (rule AnalyzeDirectory_fail)
  show "filter is_readdir (AnalyzeDirectory env directory referenceImagePath listings) = []"
    by (simp add: a)
  show "started_names (AnalyzeDirectory env directory referenceImagePath listings) = []"
    by (simp add: a)
next
  assume "ValidateImage env referenceImagePath = Inr img"
  then show "length (filter is_readdir (AnalyzeDirectory env directory referenceImagePath listings))
        = length listings"
    by (simp add: AnalyzeDirectory_ok scan_loop_readdirs)
qed

theorem reference_image_gates_the_loop_witness:
  "ValidateImage lost_env ''img.jpg'' = Inl ''image not found: img.jpg''
   \<and> stat_not_exist lost_env ''img.jpg''
   \<and> AnalyzeDirectory lost_env ''img'' ''img.jpg'' [Inr img_listing, Inr later_listing]
        = [Log ''Reference image not found: image not found: img.jpg'']
   \<and> filter is_readdir
        (AnalyzeDirectory lost_env ''img'' ''img.jpg'' [Inr img_listing, Inr later_listing]) = []
   \<and> ValidateImage card_env ''img.jpg'' = Inr (flat_image 0)
   \<and> length (filter is_readdir
        (AnalyzeDirectory card_env ''img'' ''img.jpg'' [Inr img_listing, Inr later_listing])) = 2"
proof -
  have m: "stat_not_exist lost_env ''img.jpg''"
    by (simp add: lost_env_def example_env_sel)
  from reference_image_gates_the_loop [where env = lost_env and referenceImagePath = "''img.jpg''"
      and err = "''image not found: img.jpg''" and directory = "''img''"
      and listings = "[Inr img_listing, Inr later_listing]"] Validate_lost m
  have a: "AnalyzeDirectory lost_env ''img'' ''img.jpg'' [Inr img_listing, Inr later_listing]
        = [Log (''Reference image not found: '' @ ''image not found: img.jpg'')]"
    "filter is_readdir
        (AnalyzeDirectory lost_env ''img'' ''img.jpg'' [Inr img_listing, Inr later_listing]) = []"
    by blast+
  from reference_image_gates_the_loop [where env = card_env and referenceImagePath = "''img.jpg''"
      and img = "flat_image 0" and directory = "''img''"
      and listings = "[Inr img_listing, Inr later_listing]"] Validate_card
  have b: "length (filter is_readdir
        (AnalyzeDirectory card_env ''img'' ''img.jpg'' [Inr img_listing, Inr later_listing]))
      = length [Inr img_listing, Inr later_listing :: error + dir_entry list]"
    by blast
  from a b m Validate_lost Validate_card show ?thesis by simp
qed

text \<open>
  Claim C9. When a listing fails, that iteration calls \<open>os.ReadDir\<close>, writes the error on
  the log and does nothing else: it starts no task and leaves \<open>processedFiles\<close> as it
  was. The loop goes on: every later listing is still scanned.
\<close>

theorem failed_listing_is_skipped:
  assumes "ValidateImage env referenceImagePath = Inr img"
  shows "AnalyzeDirectory env directory referenceImagePath (before @ Inl err # after) =
       snd (scan_loop env directory Map.empty before)
       @ ReadDir directory # Log (''Error reading directory: '' @ err)
       # snd (scan_loop env directory (fst (scan_loop env directory Map.empty before)) after)
     \<and> length (filter is_readdir
          (snd (scan_loop env directory (fst (scan_loop env directory Map.empty before)) after)))
        = length after
     \<and> fst (scan_loop env directory processedFiles (Inl err # after))
        = fst (scan_loop env directory processedFiles after)"
  using assms
  by (simp add: AnalyzeDirectory_ok scan_loop_append scan_loop_Inl scan_loop_readdirs
      del: scan_loop.simps)

theorem failed_listing_is_skipped_witness:
  "ValidateImage card_env ''img.jpg'' = Inr (flat_image 0)
   \<and> AnalyzeDirectory card_env ''img'' ''img.jpg''
        ([Inr img_listing] @ Inl ''input/output error'' # [Inr later_listing]) =
      [ReadDir ''img'', Go ''a.jpg'' ''img/a.jpg'', Go ''b.JPG'' ''img/b.JPG'', Sleep,
       ReadDir ''img'', Log ''Error reading directory: input/output error'',
       ReadDir ''img'', Go ''d.jpg'' ''img/d.jpg'', Sleep]"
proof -
  have 1: "scan_loop card_env ''img'' Map.empty [Inr img_listing] =
     ([''a.jpg'' \<mapsto> True, ''b.JPG'' \<mapsto> True],
      [ReadDir ''img'', Go ''a.jpg'' ''img/a.jpg'', Go ''b.JPG'' ''img/b.JPG'', Sleep])"
    by (simp add: scan_img_listing card_env_sel)
  have 2: "scan_loop card_env ''img'' [''a.jpg'' \<mapsto> True, ''b.JPG'' \<mapsto> True] [Inr later_listing] =
     ([''a.jpg'' \<mapsto> True, ''b.JPG'' \<mapsto> True, ''d.jpg'' \<mapsto> True],
      [ReadDir ''img'', Go ''d.jpg'' ''img/d.jpg'', Sleep])"
    by (simp add: scan_later_listing card_env_sel)
  from failed_listing_is_skipped [OF Validate_card, where directory = "''img''"
      and before = "[Inr img_listing]" and err = "''input/output error''"
      and after = "[Inr later_listing]" and processedFiles = Map.empty]
  have "AnalyzeDirectory card_env ''img'' ''img.jpg''
        ([Inr img_listing] @ Inl ''input/output error'' # [Inr later_listing]) =
       snd (scan_loop card_env ''img'' Map.empty [Inr img_listing])
       @ ReadDir ''img'' # Log (''Error reading directory: '' @ ''input/output error'')
       # snd (scan_loop card_env ''img'' (fst (scan_loop card_env ''img'' Map.empty [Inr img_listing]))
           [Inr later_listing])"
    by blast
  then show ?thesis
    unfolding 1 2 fst_conv snd_conv by (simp add: Validate_card 2)
qed

section \<open>Loading an image\<close>

lemma messages_differ: "''image not found: '' @ p \<noteq> ''unable to read image: '' @ q"
  by simp

text \<open>
  Claim C10 says that \<open>ValidateImage\<close> returns the error \<open>image not found\<close> exactly when the
  path does not exist, and the error \<open>unable to read image\<close> exactly when the path exists
  and cannot be decoded. That fails for a path below a file: there is nothing at
  \<open>img/a.jpg/x\<close>, \<open>os.Stat\<close> fails with \<open>ENOTDIR\<close>, of which \<open>os.IsNotExist\<close> does not hold, and
  \<open>ValidateImage\<close> returns \<open>unable to read image\<close>.
\<close>

theorem ValidateImage_not_found_counterexample:
  "no_such_path (Stat nested_env ''img/a.jpg/x'')
   \<and> ValidateImage nested_env ''img/a.jpg/x'' = Inl ''unable to read image: img/a.jpg/x''
   \<and> ValidateImage nested_env ''img/a.jpg/x'' \<noteq> Inl ''image not found: img/a.jpg/x''"
  by (simp add: ValidateImage_def stat_not_exist_def IsNotExist_def no_such_path_def
      nested_env_sel NewMat_Empty)

text \<open>
  Claim C10, amended. \<open>ValidateImage\<close> returns the error \<open>image not found\<close> exactly when
  \<open>os.Stat\<close> fails on the path with \<open>ENOENT\<close>, the error of which \<open>os.IsNotExist\<close> holds. It
  returns the error \<open>unable to read image\<close> exactly when that is not so and \<open>IMRead\<close>
  returns an empty \<open>Mat\<close>: for a file that cannot be decoded, and also for a path that
  is absent for another reason, such as \<open>ENOTDIR\<close>. Otherwise it returns the image read
  and no error. The two messages differ.
\<close>

theorem ValidateImage_by_stat_answer:
  "(ValidateImage env imagePath = Inl (''image not found: '' @ imagePath)
      \<longleftrightarrow> Stat env imagePath = ENOENT)
   \<and> (ValidateImage env imagePath = Inl (''unable to read image: '' @ imagePath)
      \<longleftrightarrow> Stat env imagePath \<noteq> ENOENT \<and> Empty (IMRead env imagePath IMReadGrayScale))
   \<and> (ValidateImage env imagePath = Inr img
      \<longleftrightarrow> Stat env imagePath \<noteq> ENOENT \<and> \<not> Empty (IMRead env imagePath IMReadGrayScale)
          \<and> img = IMRead env imagePath IMReadGrayScale)
   \<and> (Stat env imagePath = ENOTDIR \<and> Empty (IMRead env imagePath IMReadGrayScale) \<longrightarrow>
        no_such_path (Stat env imagePath)
        \<and> ValidateImage env imagePath = Inl (''unable to read image: '' @ imagePath))
   \<and> ''image not found: '' @ imagePath \<noteq> ''unable to read image: '' @ imagePath"
  by (auto simp: ValidateImage_def stat_not_exist_def IsNotExist_def no_such_path_def Let_def)

theorem ValidateImage_by_stat_answer_witness:
  "Stat broken_env ''img/gone.jpg'' = ENOENT
   \<and> ValidateImage broken_env ''img/gone.jpg'' = Inl ''image not found: img/gone.jpg''
   \<and> Stat broken_env ''img/bad.jpg'' = StatOK
   \<and> Empty (IMRead broken_env ''img/bad.jpg'' IMReadGrayScale)
   \<and> ValidateImage broken_env ''img/bad.jpg'' = Inl ''unable to read image: img/bad.jpg''
   \<and> Stat nested_env ''img/a.jpg/x'' = ENOTDIR
   \<and> Empty (IMRead nested_env ''img/a.jpg/x'' IMReadGrayScale)
   \<and> ValidateImage nested_env ''img/a.jpg/x'' = Inl ''unable to read image: img/a.jpg/x''
   \<and> Stat broken_env ''img/a.jpg'' = StatOK
   \<and> ValidateImage broken_env ''img/a.jpg'' = Inr (flat_image 0)"
proof -
  have gone: "Stat broken_env ''img/gone.jpg'' = ENOENT"
    by (simp add: broken_env_Stat)
  have bad: "Stat broken_env ''img/bad.jpg'' = StatOK"
       "Empty (IMRead broken_env ''img/bad.jpg'' IMReadGrayScale)"
    by (simp_all add: broken_env_Stat broken_env_sel NewMat_Empty)
  have nested: "Stat nested_env ''img/a.jpg/x'' = ENOTDIR"
       "Empty (IMRead nested_env ''img/a.jpg/x'' IMReadGrayScale)"
    by (simp_all add: nested_env_sel NewMat_Empty)
  have ok: "Stat broken_env ''img/a.jpg'' = StatOK"
       "\<not> Empty (IMRead broken_env ''img/a.jpg'' IMReadGrayScale)"
       "flat_image 0 = IMRead broken_env ''img/a.jpg'' IMReadGrayScale"
    by (simp_all add: broken_env_Stat broken_env_sel flat_image_not_Empty)
  from ValidateImage_by_stat_answer [where env = broken_env and imagePath = "''img/gone.jpg''"] gone
  have 1: "ValidateImage broken_env ''img/gone.jpg'' = Inl (''image not found: '' @ ''img/gone.jpg'')"
    by blast
  from ValidateImage_by_stat_answer [where env = broken_env and imagePath = "''img/bad.jpg''"] bad
  have 2: "ValidateImage broken_env ''img/bad.jpg'' = Inl (''unable to read image: '' @ ''img/bad.jpg'')"
    by simp
  from ValidateImage_by_stat_answer [where env = nested_env and imagePath = "''img/a.jpg/x''"] nested
  have 3: "ValidateImage nested_env ''img/a.jpg/x'' = Inl (''unable to read image: '' @ ''img/a.jpg/x'')"
    by blast
  from ValidateImage_by_stat_answer [where env = broken_env and imagePath = "''img/a.jpg''"
      and img = "flat_image 0"] ok
  have 4: "ValidateImage broken_env ''img/a.jpg'' = Inr (flat_image 0)"
    by simp
  from 1 2 3 4 gone bad nested ok(1) show ?thesis by simp
qed

end
